theory Spec2Isabelle
  imports Complex_Main
begin

section \<open>The Hampel filter of \<^verbatim>\<open>hampel_filter.py\<close>\<close>

text \<open>
  The module holds three functions over one-dimensional arrays of floating-point numbers:
  \<^verbatim>\<open>median_absolute_deviation\<close>, \<^verbatim>\<open>estimated_standard_deviation\<close> and
  \<^verbatim>\<open>hampel_filter\<close>. They are embedded twice, line by line each time.

  The first embedding reads the arithmetic over the reals:
  \<^item> An array of samples is a \<open>real list\<close>: the specification speaks of sequences of real
    numbers, and the arithmetic of the functions is read over the reals (rounding of the
    floating-point operations is not modelled). The array has a floating-point element
    type, so that the assignment of a median into the copy stores the median itself.
  \<^item> A scalar computed by numpy is a \<open>real option\<close>: \<open>None\<close> is the value NaN, which
    \<^verbatim>\<open>np.median\<close> returns for an empty array (with a warning, not an exception). A
    comparison with NaN is false.
  \<^item> \<^verbatim>\<open>window_size\<close> is a Python integer, an \<open>int\<close>; Python's \<^verbatim>\<open>%\<close> and \<^verbatim>\<open>//\<close>
    are the flooring \<open>mod\<close> and \<open>div\<close> of HOL.
  \<^item> Every exception of the module and of the numpy functions it calls is a
    \<^verbatim>\<open>ValueError\<close> with a message; a function that can raise returns
    \<open>error + 'a\<close>, with \<open>Inl\<close> for the exception.

  The second embedding (the definitions with the suffix \<open>_fp\<close>) takes the arithmetic of
  the element type as a parameter, so that it says nothing about how a sum, a difference,
  a product or a mean is rounded, or whether it overflows. It is the one for the
  properties of the values that the functions compute; at the exact arithmetic of the
  reals it is the first embedding.
\<close>

datatype error = ValueError string

text \<open>
  The errors that the numpy functions below raise, with the messages of numpy. (The last
  character of the second message, an apostrophe, is appended as a character.)
\<close>

definition negative_pad_width :: error where
  "negative_pad_width = ValueError ''index can't contain negative values''"

definition empty_axis :: error where
  "empty_axis =
     ValueError (''can't extend empty axis 0 using modes other than 'constant' or 'empty''
                 @ [CHR 0x27])"

definition negative_window_shape :: error where
  "negative_window_shape = ValueError ''`window_shape` cannot contain negative values''"

definition window_too_large :: error where
  "window_too_large = ValueError ''window shape cannot be larger than input array shape''"

subsection \<open>The numpy functions the module calls\<close>

text \<open>
  \<^verbatim>\<open>np.mean\<close> of a one-dimensional array: the sum divided by the number of elements, and
  NaN for the empty array.
\<close>

definition np_mean :: "real list \<Rightarrow> real option" where
  "np_mean a = (if a = [] then None else Some (sum_list a / real (length a)))"

text \<open>
  \<^verbatim>\<open>np.median\<close> of a one-dimensional array: numpy partitions the array so that the middle
  positions hold the elements they hold in the sorted array, cuts out the slice
  \<^verbatim>\<open>[index : index + 1]\<close> when the size is odd and \<^verbatim>\<open>[index - 1 : index + 1]\<close> when it is
  even, where \<^verbatim>\<open>index = size // 2\<close>, and returns the mean of the slice. A slice bound
  below 0 cannot occur for a non-empty array; the empty array yields the empty slice.
\<close>

definition np_median :: "real list \<Rightarrow> real option" where
  "np_median a =
     (let part = sort a;
          index = length part div 2
      in if length part mod 2 = 1 then np_mean (take 1 (drop index part))
         else np_mean (take 2 (drop (index - 1) part)))"

text \<open>
  \<^verbatim>\<open>np.pad(array, h, "median", stat_length=h)\<close> on a one-dimensional array, as the module
  calls it (pad width and statistic length are the same number):
  \<^item> a negative width is rejected;
  \<^item> an empty array can only be extended by the modes \<^verbatim>\<open>constant\<close> and \<^verbatim>\<open>empty\<close>: with a
    width other than 0 the call raises, with width 0 it returns the empty array;
  \<^item> otherwise the statistic length is limited to the length of the array, the left
    statistic is the median of the first \<open>len\<close> elements, the right one the median of the
    last \<open>len\<close> elements, and each pad area of \<open>h\<close> elements is filled with its statistic.
  A statistic is NaN only when its chunk is empty, that is when \<open>h = 0\<close>; then both pad
  areas have width 0 and the result is the array itself, which is the last case below.
\<close>

definition np_pad_median :: "real list \<Rightarrow> int \<Rightarrow> error + real list" where
  "np_pad_median array h =
     (if h < 0 then Inl negative_pad_width
      else if array = [] then
        (if h \<noteq> 0
         then Inl empty_axis
         else Inr [])
      else
        (let n = length array;
             len = min (nat h) n
         in case (np_median (take len array), np_median (drop (n - len) array)) of
              (Some left_stat, Some right_stat) \<Rightarrow>
                Inr (replicate (nat h) left_stat @ array @ replicate (nat h) right_stat)
            | _ \<Rightarrow> Inr array))"

text \<open>
  \<^verbatim>\<open>sliding_window_view(x, w)\<close> on a one-dimensional array: a negative window length and a
  window longer than the array are rejected; otherwise the result has
  \<^verbatim>\<open>len(x) - w + 1\<close> rows, and row \<open>j\<close> is the slice \<^verbatim>\<open>x[j : j + w]\<close>.
\<close>

definition sliding_window_view :: "real list \<Rightarrow> int \<Rightarrow> error + real list list" where
  "sliding_window_view x w =
     (if w < 0 then Inl negative_window_shape
      else if int (length x) < w
      then Inl window_too_large
      else Inr (map (\<lambda>j. take (nat w) (drop j x)) [0 ..< length x - nat w + 1]))"

subsection \<open>The functions of the module\<close>

text \<open>
  \<^verbatim>\<open>median_absolute_deviation(a)\<close> is \<^verbatim>\<open>np.median(np.abs(a - np.median(a)))\<close>. When the
  inner median is NaN the array is empty, \<^verbatim>\<open>a - nan\<close> is empty too, and so the outer median
  is NaN.
\<close>

definition median_absolute_deviation :: "real list \<Rightarrow> real option" where
  "median_absolute_deviation a =
     (case np_median a of
        None \<Rightarrow> None
      | Some m \<Rightarrow> np_median (map (\<lambda>x. \<bar>x - m\<bar>) a))"

text \<open>The default of the parameter \<^verbatim>\<open>scale_factor\<close>.\<close>

definition default_scale_factor :: real where
  "default_scale_factor = 1.4826"

text \<open>\<^verbatim>\<open>estimated_standard_deviation(a, scale_factor)\<close>; a product with NaN is NaN.\<close>

definition estimated_standard_deviation :: "real list \<Rightarrow> real \<Rightarrow> real option" where
  "estimated_standard_deviation a scale_factor =
     map_option (\<lambda>mad. scale_factor * mad) (median_absolute_deviation a)"

text \<open>
  The test of line 62 for one pair of the loop, \<^verbatim>\<open>np.abs(sample - local_median) > threshold\<close>,
  with the three assignments before it. The comparison is false when a side is NaN.
\<close>

definition exceeds_threshold :: "real \<Rightarrow> real \<Rightarrow> real list \<Rightarrow> bool" where
  "exceeds_threshold nsigma sample window =
     (case (np_median window, estimated_standard_deviation window default_scale_factor) of
        (Some local_median, Some local_standard_deviation) \<Rightarrow>
          (let threshold = nsigma * local_standard_deviation
           in \<bar>sample - local_median\<bar> > threshold)
      | _ \<Rightarrow> False)"

text \<open>
  The loop of lines 56 to 63 over \<^verbatim>\<open>enumerate(zip(samples, centered_windows))\<close>, with the
  counter \<open>i\<close> and the array \<^verbatim>\<open>filtered_samples\<close> as its state. The index \<open>i\<close> is below
  the length of \<^verbatim>\<open>filtered_samples\<close>, a copy of \<^verbatim>\<open>samples\<close>, because \<^verbatim>\<open>zip\<close> stops with
  \<^verbatim>\<open>samples\<close>; the assignment never raises. In the branch taken the median is not NaN.
\<close>

fun hampel_loop :: "real \<Rightarrow> nat \<Rightarrow> (real \<times> real list) list \<Rightarrow> real list \<Rightarrow> real list" where
  "hampel_loop nsigma i [] filtered_samples = filtered_samples"
| "hampel_loop nsigma i ((sample, window) # rest) filtered_samples =
     hampel_loop nsigma (Suc i) rest
       (if exceeds_threshold nsigma sample window
        then (case np_median window of
                Some local_median \<Rightarrow> filtered_samples[i := local_median]
              | None \<Rightarrow> filtered_samples)
        else filtered_samples)"

definition hampel_filter :: "real list \<Rightarrow> int \<Rightarrow> real \<Rightarrow> error + real list" where
  "hampel_filter samples window_size nsigma =
     (if window_size mod 2 = 0 then Inl (ValueError ''Window size must be odd!'')
      else
        (case np_pad_median samples (window_size div 2) of
           Inl e \<Rightarrow> Inl e
         | Inr padded_samples \<Rightarrow>
             (case sliding_window_view padded_samples window_size of
                Inl e \<Rightarrow> Inl e
              | Inr centered_windows \<Rightarrow>
                  Inr (hampel_loop nsigma 0 (zip samples centered_windows) samples))))"

text \<open>
  The indices at which the loop takes the branch of line 62 and assigns the local median.
\<close>

definition replaced_indices :: "real \<Rightarrow> (real \<times> real list) list \<Rightarrow> nat list" where
  "replaced_indices nsigma pairs =
     filter (\<lambda>i. exceeds_threshold nsigma (fst (pairs ! i)) (snd (pairs ! i))) [0 ..< length pairs]"

subsection \<open>The notions of the specification\<close>

text \<open>
  The specification's median, in its own words: the \<open>k\<close>-th order statistic is the
  \<open>k\<close>-th smallest value (counted from 0); the median of a sequence of odd length is its
  middle order statistic, the median of a sequence of even length the arithmetic mean of
  its two middle order statistics. It is meant for non-empty sequences only.
\<close>

definition order_statistic :: "real list \<Rightarrow> nat \<Rightarrow> real" where
  "order_statistic a k = sort a ! k"

definition spec_median :: "real list \<Rightarrow> real" where
  "spec_median a =
     (if odd (length a) then order_statistic a (length a div 2)
      else (order_statistic a (length a div 2 - 1) + order_statistic a (length a div 2)) / 2)"

text \<open>The specification's contract of the median absolute deviation.\<close>

definition spec_mad :: "real list \<Rightarrow> real" where
  "spec_mad a = spec_median (map (\<lambda>x. \<bar>x - spec_median a\<bar>) a)"

text \<open>
  The padded sequence of the specification for \<open>half = windowSize // 2\<close>: \<open>half\<close>
  copies of the median of the first \<open>half\<close> samples, the samples, and \<open>half\<close> copies of
  the median of the last \<open>half\<close> samples. With \<open>half = 0\<close> nothing is added.
\<close>

definition padded_sequence :: "real list \<Rightarrow> nat \<Rightarrow> real list" where
  "padded_sequence samples half =
     replicate half (spec_median (take half samples)) @ samples @
     replicate half (spec_median (drop (length samples - half) samples))"

text \<open>
  The window of the specification for the original index \<open>i\<close>: the slice of the padded
  sequence at the padded indices \<open>i .. i + windowSize - 1\<close>.
\<close>

definition centered_window :: "real list \<Rightarrow> nat \<Rightarrow> nat \<Rightarrow> real list" where
  "centered_window samples window_size i =
     take window_size (drop i (padded_sequence samples (window_size div 2)))"

text \<open>
  Two ways to count the replaced points of a call. \<open>num_replaced\<close> runs the statements of
  \<^verbatim>\<open>hampel_filter\<close> up to the loop and counts the iterations that take the branch of line
  62; \<open>num_changed\<close> counts the positions at which an output differs from the input.
\<close>

definition num_replaced :: "real list \<Rightarrow> int \<Rightarrow> real \<Rightarrow> error + nat" where
  "num_replaced samples window_size nsigma =
     (if window_size mod 2 = 0 then Inl (ValueError ''Window size must be odd!'')
      else
        (case np_pad_median samples (window_size div 2) of
           Inl e \<Rightarrow> Inl e
         | Inr padded_samples \<Rightarrow>
             (case sliding_window_view padded_samples window_size of
                Inl e \<Rightarrow> Inl e
              | Inr centered_windows \<Rightarrow>
                  Inr (length (replaced_indices nsigma (zip samples centered_windows))))))"

definition num_changed :: "real list \<Rightarrow> real list \<Rightarrow> nat" where
  "num_changed samples filtered_samples =
     length (filter (\<lambda>i. filtered_samples ! i \<noteq> samples ! i) [0 ..< length samples])"

subsection \<open>The functions over the arithmetic of the element type\<close>

text \<open>
  The numbers of the element type other than NaN are the values of a type \<open>'v\<close>, linearly
  ordered by the comparison of the element type; an element of an array is a
  \<open>'v option\<close>, with \<open>None\<close> for NaN. For float64, \<open>'v\<close> holds minus infinity, the finite
  doubles (the two zeros are one value: no operation of the module tells them apart) and
  plus infinity. The operations of the element type are the fields of a record:
  \<^item> \<open>fadd\<close>, \<open>fsub\<close>, \<open>fmul\<close>: sum, difference and product of two numbers, a number or NaN
    (the sum of the two infinities, zero times infinity);
  \<^item> \<open>fdiv_count\<close>: a number divided by a positive count, as \<^verbatim>\<open>np.mean\<close> divides;
  \<^item> \<open>fabs\<close>: the absolute value;
  \<^item> \<open>fconst\<close>: the number that a literal of the program denotes.
  Nothing is assumed of them in the definitions. The element type is a floating-point
  type, as the sample sequences of the specification are: \<^verbatim>\<open>np.pad\<close> stores its statistic
  and the loop stores the median as they are.
\<close>

record 'v arith =
  fadd :: "'v \<Rightarrow> 'v \<Rightarrow> 'v option"
  fsub :: "'v \<Rightarrow> 'v \<Rightarrow> 'v option"
  fmul :: "'v \<Rightarrow> 'v \<Rightarrow> 'v option"
  fdiv_count :: "'v \<Rightarrow> nat \<Rightarrow> 'v"
  fabs :: "'v \<Rightarrow> 'v"
  fconst :: "real \<Rightarrow> 'v"

text \<open>
  An operation on elements: NaN when an operand is NaN. \<^verbatim>\<open>>\<close> is false when an operand is
  NaN. \<open>abs_diff_fp\<close> is \<^verbatim>\<open>np.abs(x - y)\<close>.
\<close>

definition nan_lift :: "('v \<Rightarrow> 'v \<Rightarrow> 'v option) \<Rightarrow> 'v option \<Rightarrow> 'v option \<Rightarrow> 'v option" where
  "nan_lift f x y =
     (case x of None \<Rightarrow> None | Some a \<Rightarrow> (case y of None \<Rightarrow> None | Some b \<Rightarrow> f a b))"

definition greater_fp :: "('v :: linorder) option \<Rightarrow> 'v option \<Rightarrow> bool" where
  "greater_fp x y =
     (case x of None \<Rightarrow> False | Some a \<Rightarrow> (case y of None \<Rightarrow> False | Some b \<Rightarrow> b < a))"

definition abs_diff_fp :: "'v arith \<Rightarrow> 'v option \<Rightarrow> 'v option \<Rightarrow> 'v option" where
  "abs_diff_fp ar x y = map_option (fabs ar) (nan_lift (fsub ar) x y)"

text \<open>
  \<^verbatim>\<open>np.mean\<close> of a slice without NaN: numpy adds the elements of a slice of fewer than 8
  elements from left to right, starting with the first, and divides the sum by the
  count; the mean of the empty slice is NaN. \<^verbatim>\<open>np.median\<close> applies it to one or two
  elements.
\<close>

fun sum_from :: "'v arith \<Rightarrow> 'v \<Rightarrow> 'v list \<Rightarrow> 'v option" where
  "sum_from ar acc [] = Some acc"
| "sum_from ar acc (x # xs) =
     (case fadd ar acc x of None \<Rightarrow> None | Some s \<Rightarrow> sum_from ar s xs)"

definition np_mean_fp :: "'v arith \<Rightarrow> 'v list \<Rightarrow> 'v option" where
  "np_mean_fp ar a =
     (case a of
        [] \<Rightarrow> None
      | x # xs \<Rightarrow> map_option (\<lambda>s. fdiv_count ar s (length a)) (sum_from ar x xs))"

text \<open>
  \<^verbatim>\<open>np.median\<close>: as in the first embedding, and NaN when the array holds a NaN (numpy
  sorts NaN to the end and returns NaN when the last element is one).
\<close>

definition np_median_fp :: "('v :: linorder) arith \<Rightarrow> 'v option list \<Rightarrow> 'v option" where
  "np_median_fp ar a =
     (if None \<in> set a then None
      else
        (let part = sort (map the a);
             index = length part div 2
         in if length part mod 2 = 1 then np_mean_fp ar (take 1 (drop index part))
            else np_mean_fp ar (take 2 (drop (index - 1) part))))"

text \<open>
  \<^verbatim>\<open>np.pad(array, h, "median", stat_length=h)\<close>: the checks of the first embedding; each
  pad area of \<open>h\<close> elements is filled with its statistic, which may be NaN (it is for the
  empty chunk, when \<open>h = 0\<close> and nothing is filled).
\<close>

definition np_pad_median_fp ::
  "('v :: linorder) arith \<Rightarrow> 'v option list \<Rightarrow> int \<Rightarrow> error + 'v option list" where
  "np_pad_median_fp ar array h =
     (if h < 0 then Inl negative_pad_width
      else if array = [] then (if h \<noteq> 0 then Inl empty_axis else Inr [])
      else
        (let n = length array;
             len = min (nat h) n;
             left_stat = np_median_fp ar (take len array);
             right_stat = np_median_fp ar (drop (n - len) array)
         in Inr (replicate (nat h) left_stat @ array @ replicate (nat h) right_stat)))"

text \<open>\<^verbatim>\<open>sliding_window_view(x, w)\<close>, for any element type.\<close>

definition sliding_window_view_fp :: "'a list \<Rightarrow> int \<Rightarrow> error + 'a list list" where
  "sliding_window_view_fp x w =
     (if w < 0 then Inl negative_window_shape
      else if int (length x) < w then Inl window_too_large
      else Inr (map (\<lambda>j. take (nat w) (drop j x)) [0 ..< length x - nat w + 1]))"

text \<open>
  The three functions of the module. \<^verbatim>\<open>a - np.median(a)\<close> subtracts the median from each
  element; the default scale factor is the number that the literal \<^verbatim>\<open>1.4826\<close> denotes.
\<close>

definition median_absolute_deviation_fp ::
  "('v :: linorder) arith \<Rightarrow> 'v option list \<Rightarrow> 'v option" where
  "median_absolute_deviation_fp ar a =
     np_median_fp ar (map (\<lambda>x. abs_diff_fp ar x (np_median_fp ar a)) a)"

definition default_scale_factor_fp :: "'v arith \<Rightarrow> 'v option" where
  "default_scale_factor_fp ar = Some (fconst ar 1.4826)"

definition estimated_standard_deviation_fp ::
  "('v :: linorder) arith \<Rightarrow> 'v option list \<Rightarrow> 'v option \<Rightarrow> 'v option" where
  "estimated_standard_deviation_fp ar a scale_factor =
     nan_lift (fmul ar) scale_factor (median_absolute_deviation_fp ar a)"

text \<open>The test of line 62 with the three assignments before it, and the loop.\<close>

definition exceeds_threshold_fp ::
  "('v :: linorder) arith \<Rightarrow> 'v option \<Rightarrow> 'v option \<Rightarrow> 'v option list \<Rightarrow> bool" where
  "exceeds_threshold_fp ar nsigma sample window =
     (let local_median = np_median_fp ar window;
          local_standard_deviation =
            estimated_standard_deviation_fp ar window (default_scale_factor_fp ar);
          threshold = nan_lift (fmul ar) nsigma local_standard_deviation
      in greater_fp (abs_diff_fp ar sample local_median) threshold)"

fun hampel_loop_fp ::
  "('v :: linorder) arith \<Rightarrow> 'v option \<Rightarrow> nat \<Rightarrow> ('v option \<times> 'v option list) list
     \<Rightarrow> 'v option list \<Rightarrow> 'v option list" where
  "hampel_loop_fp ar nsigma i [] filtered_samples = filtered_samples"
| "hampel_loop_fp ar nsigma i ((sample, window) # rest) filtered_samples =
     hampel_loop_fp ar nsigma (Suc i) rest
       (if exceeds_threshold_fp ar nsigma sample window
        then filtered_samples[i := np_median_fp ar window]
        else filtered_samples)"

definition hampel_filter_fp ::
  "('v :: linorder) arith \<Rightarrow> 'v option list \<Rightarrow> int \<Rightarrow> 'v option \<Rightarrow> error + 'v option list" where
  "hampel_filter_fp ar samples window_size nsigma =
     (if window_size mod 2 = 0 then Inl (ValueError ''Window size must be odd!'')
      else
        (case np_pad_median_fp ar samples (window_size div 2) of
           Inl e \<Rightarrow> Inl e
         | Inr padded_samples \<Rightarrow>
             (case sliding_window_view_fp padded_samples window_size of
                Inl e \<Rightarrow> Inl e
              | Inr centered_windows \<Rightarrow>
                  Inr (hampel_loop_fp ar nsigma 0 (zip samples centered_windows) samples))))"

text \<open>
  The median of the specification in the arithmetic of the element type: the middle
  order statistic of a sequence of odd length, the mean of the two middle order
  statistics, their sum divided by 2, of a sequence of even length; NaN for a sequence
  that holds a NaN. The padded sequence of the specification with this median.
\<close>

definition spec_median_fp :: "('v :: linorder) arith \<Rightarrow> 'v option list \<Rightarrow> 'v option" where
  "spec_median_fp ar a =
     (if None \<in> set a then None
      else
        (let s = sort (map the a);
             n = length s
         in if odd n then Some (s ! (n div 2))
            else map_option (\<lambda>t. fdiv_count ar t 2) (fadd ar (s ! (n div 2 - 1)) (s ! (n div 2)))))"

definition padded_sequence_fp ::
  "('v :: linorder) arith \<Rightarrow> 'v option list \<Rightarrow> nat \<Rightarrow> 'v option list" where
  "padded_sequence_fp ar samples half =
     replicate half (spec_median_fp ar (take half samples)) @ samples @
     replicate half (spec_median_fp ar (drop (length samples - half) samples))"

text \<open>
  Two properties of an arithmetic, both true of IEEE 754 binary64 (and of any arithmetic
  that returns the exact result whenever the element type can represent it).
  \<^item> A number divided by the count 1 is the number.
  \<^item> On the integers up to \<open>2 ^ 52\<close> in absolute value: an integer literal denotes the
    integer, the order is that of the integers, a difference is the exact difference,
    the absolute value is exact (up to \<open>2 ^ 53\<close>); and a number times the number 1 is the
    number.
\<close>

definition division_by_one_exact :: "'v arith \<Rightarrow> bool" where
  "division_by_one_exact ar \<longleftrightarrow> (\<forall>x. fdiv_count ar x 1 = x)"

definition exact_on_small_integers :: "('v :: linorder) arith \<Rightarrow> bool" where
  "exact_on_small_integers ar \<longleftrightarrow>
     (\<forall>i j :: int. \<bar>i\<bar> \<le> 2 ^ 52 \<and> \<bar>j\<bar> \<le> 2 ^ 52 \<and> i < j \<longrightarrow>
        fconst ar (of_int i) < fconst ar (of_int j))
   \<and> (\<forall>i j :: int. \<bar>i\<bar> \<le> 2 ^ 52 \<and> \<bar>j\<bar> \<le> 2 ^ 52 \<longrightarrow>
        fsub ar (fconst ar (of_int i)) (fconst ar (of_int j)) = Some (fconst ar (of_int (i - j))))
   \<and> (\<forall>i :: int. \<bar>i\<bar> \<le> 2 ^ 53 \<longrightarrow> fabs ar (fconst ar (of_int i)) = fconst ar (of_int \<bar>i\<bar>))
   \<and> (\<forall>x. fmul ar x (fconst ar 1) = Some x)"

text \<open>
  Two arithmetics: the exact arithmetic of the reals, without NaN and without rounding,
  and an arithmetic on the integers whose division by a count rounds to the nearest
  integer (upwards from a half) and whose literals are rounded to the nearest integer;
  the second is not exact.
\<close>

definition exact_arith :: "real arith" where
  "exact_arith =
     \<lparr>fadd = (\<lambda>x y. Some (x + y)), fsub = (\<lambda>x y. Some (x - y)), fmul = (\<lambda>x y. Some (x * y)),
      fdiv_count = (\<lambda>x n. x / real n), fabs = abs, fconst = (\<lambda>r. r)\<rparr>"


definition rounding_arith :: "int arith" where
  "rounding_arith =
     \<lparr>fadd = (\<lambda>x y. Some (x + y)), fsub = (\<lambda>x y. Some (x - y)), fmul = (\<lambda>x y. Some (x * y)),
      fdiv_count = (\<lambda>x n. (2 * x + int n) div (2 * int n)), fabs = abs, fconst = round\<rparr>"

section \<open>Properties\<close>

subsection \<open>The median\<close>

lemma take_one_drop: "i < length xs \<Longrightarrow> take 1 (drop i xs) = [xs ! i]"
  by (simp add: take_Suc_conv_app_nth)

lemma take_two_drop:
  assumes "Suc i < length xs"
  shows "take 2 (drop i xs) = [xs ! i, xs ! Suc i]"
proof -
  from assms have "drop i xs = xs ! i # xs ! Suc i # drop (Suc (Suc i)) xs"
    by (simp add: Cons_nth_drop_Suc Suc_lessD)
  then show ?thesis by (simp add: numeral_2_eq_2)
qed

lemma np_median_empty: "np_median [] = None"
  by (simp add: np_median_def np_mean_def)

text \<open>On a non-empty array numpy's median is the median of the specification.\<close>

lemma np_median_spec:
  assumes "a \<noteq> []"
  shows "np_median a = Some (spec_median a)"
proof (cases "odd (length a)")
  case True
  have "length a div 2 < length (sort a)"
    using assms by simp
  then have "take 1 (drop (length a div 2) (sort a)) = [sort a ! (length a div 2)]"
    by (rule take_one_drop)
  with True show ?thesis
    by (simp add: np_median_def Let_def spec_median_def order_statistic_def np_mean_def
        odd_iff_mod_2_eq_one)
next
  case False
  then have ev: "even (length a)" by simp
  with assms have pos: "0 < length a div 2" by (cases a) auto
  then have "Suc (length a div 2 - 1) < length (sort a)" by simp
  then have "take 2 (drop (length a div 2 - 1) (sort a)) =
      [sort a ! (length a div 2 - 1), sort a ! Suc (length a div 2 - 1)]"
    by (rule take_two_drop)
  with ev pos show ?thesis
    by (simp add: np_median_def Let_def spec_median_def order_statistic_def np_mean_def)
qed

lemma np_median_single: "np_median [x] = Some x"
  by (simp add: np_median_def np_mean_def)

lemma order_statistic_mem:
  assumes "k < length a"
  shows "order_statistic a k \<in> set a"
proof -
  from assms have "sort a ! k \<in> set (sort a)"
    by (intro nth_mem) simp
  then show ?thesis by (simp add: order_statistic_def)
qed

lemma spec_median_nonneg:
  assumes "a \<noteq> []" and "\<forall>x \<in> set a. 0 \<le> x"
  shows "0 \<le> spec_median a"
proof -
  have "order_statistic a (length a div 2) \<in> set a"
    using assms(1) by (intro order_statistic_mem) simp
  moreover have "length a div 2 - 1 < length a"
    using assms(1) by (cases a) auto
  then have "order_statistic a (length a div 2 - 1) \<in> set a"
    by (rule order_statistic_mem)
  ultimately show ?thesis
    using assms(2) by (simp add: spec_median_def)
qed

subsection \<open>The two statistics\<close>

lemma mad_spec:
  assumes "a \<noteq> []"
  shows "median_absolute_deviation a = Some (spec_mad a)"
  using assms by (simp add: median_absolute_deviation_def np_median_spec spec_mad_def)

lemma spec_mad_nonneg:
  assumes "a \<noteq> []"
  shows "0 \<le> spec_mad a"
  unfolding spec_mad_def using assms by (intro spec_median_nonneg) auto

lemma esd_spec:
  assumes "a \<noteq> []"
  shows "estimated_standard_deviation a c = Some (c * spec_mad a)"
  using assms by (simp add: estimated_standard_deviation_def mad_spec)

subsection \<open>Padding and windows\<close>

lemma np_pad_median_nonempty:
  assumes "samples \<noteq> []" and "0 \<le> h"
  shows "np_pad_median samples h = Inr (padded_sequence samples (nat h))"
proof (cases "h = 0")
  case True
  then show ?thesis
    using assms(1) by (simp add: np_pad_median_def np_median_empty padded_sequence_def)
next
  case False
  with assms have pos: "0 < nat h" and n: "0 < length samples" by simp_all
  let ?len = "min (nat h) (length samples)"
  have l: "take ?len samples = take (nat h) samples"
    by (simp add: min_def)
  have r: "drop (length samples - ?len) samples = drop (length samples - nat h) samples"
    by (simp add: min_def)
  have "take (nat h) samples \<noteq> []"
    using pos n by (cases samples) (auto simp: take_Cons' )
  then have ml: "np_median (take (nat h) samples) = Some (spec_median (take (nat h) samples))"
    by (rule np_median_spec)
  have "length samples - (length samples - nat h) \<noteq> 0"
    using pos n by arith
  then have "length (drop (length samples - nat h) samples) \<noteq> 0"
    by simp
  then have "drop (length samples - nat h) samples \<noteq> []"
    by (simp del: length_drop)
  then have mr: "np_median (drop (length samples - nat h) samples) =
      Some (spec_median (drop (length samples - nat h) samples))"
    by (rule np_median_spec)
  show ?thesis
    using assms False
    by (simp add: np_pad_median_def Let_def l r ml mr padded_sequence_def del: take_eq_Nil)
qed

lemma length_padded_sequence:
  "length (padded_sequence samples half) = length samples + 2 * half"
  by (simp add: padded_sequence_def)

lemma odd_window_half:
  assumes "odd w" and "0 < w"
  shows "2 * nat (w div 2) + 1 = nat w" and "nat (w div 2) = nat w div 2"
  using assms by (auto elim!: oddE simp: nat_add_distrib nat_mult_distrib)

lemma sliding_window_view_padded:
  assumes "odd w" and "0 < w" and "samples \<noteq> []"
  shows "sliding_window_view (padded_sequence samples (nat (w div 2))) w =
     Inr (map (centered_window samples (nat w)) [0 ..< length samples])"
proof -
  have n: "0 < length samples"
    using assms(3) by simp
  let ?p = "padded_sequence samples (nat (w div 2))"
  have len: "length ?p = length samples + nat w - 1"
    using odd_window_half(1) [OF assms(1,2)] by (simp add: length_padded_sequence)
  have nw: "\<not> w < 0"
    using assms(2) by simp
  have a: "\<not> int (length ?p) < w"
    unfolding len using assms(2) n by arith
  have b: "length ?p - nat w + 1 = length samples"
    unfolding len using assms(2) n by arith
  have c: "(\<lambda>j. take (nat w) (drop j ?p)) = centered_window samples (nat w)"
    by (simp add: fun_eq_iff centered_window_def odd_window_half(2) [OF assms(1,2)])
  have "sliding_window_view ?p w =
      Inr (map (\<lambda>j. take (nat w) (drop j ?p)) [0 ..< length ?p - nat w + 1])"
    by (simp only: sliding_window_view_def nw a if_False)
  then show ?thesis
    by (simp only: b c)
qed

lemma length_centered_window:
  assumes "odd w" and "0 < w" and "i < length samples"
  shows "length (centered_window samples (nat w) i) = nat w"
proof -
  have "nat w \<le> length samples + 2 * (nat w div 2) - i"
    using assms(3) odd_window_half [OF assms(1,2)] by arith
  then show ?thesis
    by (simp add: centered_window_def length_padded_sequence)
qed

lemma hampel_filter_unfold:
  assumes "samples \<noteq> []" and "odd w" and "0 < w"
  shows "hampel_filter samples w nsigma =
     Inr (hampel_loop nsigma 0
            (zip samples (map (centered_window samples (nat w)) [0 ..< length samples])) samples)"
proof -
  have "0 \<le> w div 2" using assms(3) by simp
  then have "np_pad_median samples (w div 2) = Inr (padded_sequence samples (nat (w div 2)))"
    using assms(1) by (intro np_pad_median_nonempty)
  moreover have "w mod 2 \<noteq> 0" using assms(2) by presburger
  ultimately show ?thesis
    by (simp add: hampel_filter_def sliding_window_view_padded [OF assms(2,3,1)])
qed

subsection \<open>The loop\<close>

lemma exceeds_threshold_spec:
  assumes "window \<noteq> []"
  shows "exceeds_threshold nsigma sample window =
     (\<bar>sample - spec_median window\<bar> > nsigma * (default_scale_factor * spec_mad window))"
  using assms by (simp add: exceeds_threshold_def np_median_spec esd_spec)

lemma hampel_loop_length: "length (hampel_loop nsigma i pairs f) = length f"
  by (induction pairs arbitrary: i f) (auto split: option.splits)

lemma hampel_loop_nth:
  assumes "\<forall>p \<in> set pairs. snd p \<noteq> []" and "j < length f"
  shows "hampel_loop nsigma i pairs f ! j =
     (if i \<le> j \<and> j < i + length pairs
         \<and> exceeds_threshold nsigma (fst (pairs ! (j - i))) (snd (pairs ! (j - i)))
      then spec_median (snd (pairs ! (j - i))) else f ! j)"
  using assms
proof (induction pairs arbitrary: i f)
  case Nil
  then show ?case by simp
next
  case (Cons p rest)
  obtain sample window where p: "p = (sample, window)"
    by (cases p)
  with Cons.prems have w: "np_median window = Some (spec_median window)"
    by (simp add: np_median_spec)
  define f' where "f' = (if exceeds_threshold nsigma sample window
                         then f[i := spec_median window] else f)"
  have step: "hampel_loop nsigma i (p # rest) f = hampel_loop nsigma (Suc i) rest f'"
    by (simp add: p w f'_def)
  have len: "j < length f'"
    using Cons.prems by (simp add: f'_def)
  have ih: "hampel_loop nsigma (Suc i) rest f' ! j =
     (if Suc i \<le> j \<and> j < Suc i + length rest
         \<and> exceeds_threshold nsigma (fst (rest ! (j - Suc i))) (snd (rest ! (j - Suc i)))
      then spec_median (snd (rest ! (j - Suc i))) else f' ! j)"
    using Cons.prems len by (intro Cons.IH) simp_all
  consider "j < i" | "j = i" | "i < j" by arith
  then show ?case
  proof cases
    case 1
    then show ?thesis unfolding step ih using Cons.prems by (simp add: f'_def)
  next
    case 2
    then show ?thesis unfolding step ih using Cons.prems by (simp add: f'_def p)
  next
    case 3
    then have "(p # rest) ! (j - i) = rest ! (j - Suc i)"
      by (simp add: nth_Cons')
    with 3 show ?thesis unfolding step ih using Cons.prems by (simp add: f'_def)
  qed
qed


lemma windowed_pairs:
  fixes samples :: "real list"
  assumes "odd w" and "0 < w"
  defines "pairs \<equiv> zip samples (map (centered_window samples (nat w)) [0 ..< length samples])"
  shows "length pairs = length samples"
    and "i < length samples \<Longrightarrow> pairs ! i = (samples ! i, centered_window samples (nat w) i)"
    and "\<forall>p \<in> set pairs. snd p \<noteq> []"
proof -
  show l: "length pairs = length samples"
    by (simp add: pairs_def)
  show n: "pairs ! i = (samples ! i, centered_window samples (nat w) i)" if "i < length samples" for i
    using that by (simp add: pairs_def)
  show "\<forall>p \<in> set pairs. snd p \<noteq> []"
  proof
    fix p assume "p \<in> set pairs"
    then obtain i where i: "i < length pairs" and p: "p = pairs ! i"
      by (auto simp: in_set_conv_nth)
    from i l have "i < length samples" by simp
    then have "length (snd p) = nat w"
      using n [of i] p length_centered_window [OF assms(1,2)] by simp
    with assms(2) show "snd p \<noteq> []" by auto
  qed
qed

lemma hampel_filter_nth:
  assumes "samples \<noteq> []" and "odd w" and "0 < w"
  shows "\<exists>out. hampel_filter samples w nsigma = Inr out \<and> length out = length samples \<and>
     (\<forall>i < length samples. out ! i =
        (if exceeds_threshold nsigma (samples ! i) (centered_window samples (nat w) i)
         then spec_median (centered_window samples (nat w) i) else samples ! i))"
proof -
  let ?pairs = "zip samples (map (centered_window samples (nat w)) [0 ..< length samples])"
  let ?out = "hampel_loop nsigma 0 ?pairs samples"
  note wp = windowed_pairs [OF assms(2,3), where samples = samples]
  have "?out ! i =
        (if exceeds_threshold nsigma (samples ! i) (centered_window samples (nat w) i)
         then spec_median (centered_window samples (nat w) i) else samples ! i)"
    if "i < length samples" for i
  proof -
    have "?out ! i = (if 0 \<le> i \<and> i < 0 + length ?pairs
         \<and> exceeds_threshold nsigma (fst (?pairs ! (i - 0))) (snd (?pairs ! (i - 0)))
      then spec_median (snd (?pairs ! (i - 0))) else samples ! i)"
      using wp(3) that by (rule hampel_loop_nth)
    then show ?thesis
      using that by (simp only: wp(1) wp(2) [OF that] diff_zero fst_conv snd_conv) simp
  qed
  then show ?thesis
    using hampel_filter_unfold [OF assms] hampel_loop_length by blast 
qed


subsection \<open>The results of the filter\<close>

text \<open>
  Claim C4. For every valid input (at least one sample, an odd window size between 1 and
  the number of samples, any \<open>nsigma\<close>) \<^verbatim>\<open>hampel_filter\<close> returns a sequence, and the
  sequence has the length of the input.
\<close>

theorem hampel_filter_length:
  assumes "samples \<noteq> []" and "odd w" and "1 \<le> w" and "w \<le> int (length samples)"
  shows "\<exists>out. hampel_filter samples w nsigma = Inr out \<and> length out = length samples"
proof -
  from assms(3) have "0 < w" by simp
  from hampel_filter_nth [OF assms(1,2) this, of nsigma] show ?thesis
    by blast
qed

theorem hampel_filter_length_witness:
  "[0, 10, 1 :: real] \<noteq> [] \<and> odd (3 :: int) \<and> (1 :: int) \<le> 3
   \<and> (3 :: int) \<le> int (length [0, 10, 1 :: real])
   \<and> (\<exists>out. hampel_filter [0, 10, 1] 3 2 = Inr out \<and> length out = length [0, 10, 1 :: real])"
proof -
  have h1: "[0, 10, 1 :: real] \<noteq> []" by simp
  have h2: "odd (3 :: int)" by simp
  have h3: "(1 :: int) \<le> 3" by simp
  have h4: "(3 :: int) \<le> int (length [0, 10, 1 :: real])" by simp
  from hampel_filter_length [OF h1 h2 h3 h4, of 2] h1 h2 h3 h4 show ?thesis
    by (intro conjI)
qed

lemma centered_window_size_one:
  assumes "i < length samples"
  shows "centered_window samples 1 i = [samples ! i]"
  using take_one_drop [OF assms] by (simp add: centered_window_def padded_sequence_def)

lemma exceeds_threshold_single: "\<not> exceeds_threshold nsigma x [x]"
  by (simp add: exceeds_threshold_def estimated_standard_deviation_def
      median_absolute_deviation_def np_median_single)

lemma hampel_filter_window_one:
  assumes "samples \<noteq> []"
  shows "hampel_filter samples 1 nsigma = Inr samples"
proof -
  have one: "odd (1 :: int)" "0 < (1 :: int)"
    by simp_all
  from hampel_filter_nth [OF assms one, of nsigma]
  obtain out where out: "hampel_filter samples 1 nsigma = Inr out"
    and len: "length out = length samples"
    and nth: "\<And>i. i < length samples \<Longrightarrow> out ! i =
        (if exceeds_threshold nsigma (samples ! i) (centered_window samples (nat 1) i)
         then spec_median (centered_window samples (nat 1) i) else samples ! i)"
    by blast
  have "out ! i = samples ! i" if "i < length samples" for i
  proof -
    have "centered_window samples (nat 1) i = [samples ! i]"
      using centered_window_size_one [OF that] by simp
    with nth [OF that] show ?thesis
      by (simp only: exceeds_threshold_single if_False)
  qed
  with len have "out = samples"
    by (simp add: list_eq_iff_nth_eq)
  with out show ?thesis by simp
qed

text \<open>
  Claim C8. For at least one sample and every \<open>nsigma \<ge> 0\<close>, \<^verbatim>\<open>hampel_filter\<close> with
  window size 1 replaces nothing: the output is the input. Each window is the sample
  alone, its deviation from the median is 0 and the threshold is 0.
\<close>

theorem hampel_filter_window_size_one:
  assumes "samples \<noteq> []" and "0 \<le> nsigma"
  shows "hampel_filter samples 1 nsigma = Inr samples"
  using assms(1) by (rule hampel_filter_window_one)


theorem hampel_filter_window_size_one_witness:
  "[3, 1, 2 :: real] \<noteq> [] \<and> (0 :: real) \<le> 2 \<and> hampel_filter [3, 1, 2] 1 2 = Inr [3, 1, 2]"
proof -
  have h1: "[3, 1, 2 :: real] \<noteq> []" by simp
  have h2: "(0 :: real) \<le> 2" by simp
  from hampel_filter_window_size_one [OF h1 h2] h1 h2 show ?thesis
    by (intro conjI)
qed

subsection \<open>Sensitivity to \<open>nsigma\<close>\<close>

lemma default_scale_factor_nonneg: "0 \<le> default_scale_factor"
  by (simp add: default_scale_factor_def)

lemma exceeds_threshold_mono:
  assumes "window \<noteq> []" and "nsigma1 \<le> nsigma2"
    and "exceeds_threshold nsigma2 sample window"
  shows "exceeds_threshold nsigma1 sample window"
proof -
  have "0 \<le> default_scale_factor * spec_mad window"
    using default_scale_factor_nonneg spec_mad_nonneg [OF assms(1)] by simp
  with assms(2)
  have "nsigma1 * (default_scale_factor * spec_mad window)
      \<le> nsigma2 * (default_scale_factor * spec_mad window)"
    by (rule mult_right_mono)
  with assms(3) show ?thesis
    by (simp add: exceeds_threshold_spec [OF assms(1)])
qed

lemma length_filter_mono:
  assumes "\<And>x. x \<in> set xs \<Longrightarrow> P x \<Longrightarrow> Q x"
  shows "length (filter P xs) \<le> length (filter Q xs)"
  using assms by (induction xs) auto

lemma num_replaced_unfold:
  assumes "samples \<noteq> []" and "odd w" and "0 < w"
  shows "num_replaced samples w nsigma =
     Inr (length (filter
       (\<lambda>i. exceeds_threshold nsigma (samples ! i) (centered_window samples (nat w) i))
       [0 ..< length samples]))"
proof -
  let ?pairs = "zip samples (map (centered_window samples (nat w)) [0 ..< length samples])"
  note wp = windowed_pairs [OF assms(2,3), where samples = samples]
  have "0 \<le> w div 2" using assms(3) by simp
  then have "np_pad_median samples (w div 2) = Inr (padded_sequence samples (nat (w div 2)))"
    using assms(1) by (intro np_pad_median_nonempty)
  moreover have "w mod 2 \<noteq> 0" using assms(2) by presburger
  ultimately have "num_replaced samples w nsigma = Inr (length (replaced_indices nsigma ?pairs))"
    by (simp add: num_replaced_def sliding_window_view_padded [OF assms(2,3,1)])
  moreover have "replaced_indices nsigma ?pairs = filter
       (\<lambda>i. exceeds_threshold nsigma (samples ! i) (centered_window samples (nat w) i))
       [0 ..< length samples]"
    unfolding replaced_indices_def wp(1)
    by (rule filter_cong) (simp_all add: wp(2))
  ultimately show ?thesis by simp
qed

text \<open>
  Claim C9. For fixed samples (at least one) and a fixed valid odd window size, and for
  \<open>nsigma1 \<le> nsigma2\<close>, the number of indices at which \<^verbatim>\<open>hampel_filter\<close> replaces the
  sample with \<open>nsigma1\<close> is at least the number with \<open>nsigma2\<close>. This holds for both
  counts: the iterations that assign the median, and the positions whose value changes.
\<close>

theorem hampel_filter_monotone_in_nsigma:
  assumes "samples \<noteq> []" and "odd w" and "1 \<le> w" and "w \<le> int (length samples)"
    and "nsigma1 \<le> nsigma2"
  shows "\<exists>out1 out2 r1 r2.
      hampel_filter samples w nsigma1 = Inr out1 \<and> hampel_filter samples w nsigma2 = Inr out2
    \<and> num_replaced samples w nsigma1 = Inr r1 \<and> num_replaced samples w nsigma2 = Inr r2
    \<and> r2 \<le> r1
    \<and> num_changed samples out2 \<le> num_changed samples out1"
proof -
  from assms(3) have pos: "0 < w" by simp
  let ?window = "\<lambda>i. centered_window samples (nat w) i"
  let ?taken = "\<lambda>nsigma i. exceeds_threshold nsigma (samples ! i) (?window i)"
  from hampel_filter_nth [OF assms(1,2) pos, of nsigma1]
  obtain out1 where out1: "hampel_filter samples w nsigma1 = Inr out1"
    and nth1: "\<And>i. i < length samples \<Longrightarrow> out1 ! i =
        (if ?taken nsigma1 i then spec_median (?window i) else samples ! i)"
    by blast
  from hampel_filter_nth [OF assms(1,2) pos, of nsigma2]
  obtain out2 where out2: "hampel_filter samples w nsigma2 = Inr out2"
    and nth2: "\<And>i. i < length samples \<Longrightarrow> out2 ! i =
        (if ?taken nsigma2 i then spec_median (?window i) else samples ! i)"
    by blast
  have mono: "?taken nsigma1 i" if "i < length samples" and "?taken nsigma2 i" for i
  proof -
    have "length (?window i) = nat w"
      using assms(2) pos that(1) by (rule length_centered_window)
    with pos have "?window i \<noteq> []" by auto
    then show ?thesis using assms(5) that(2) by (rule exceeds_threshold_mono)
  qed
  have r: "length (filter (?taken nsigma2) [0 ..< length samples])
      \<le> length (filter (?taken nsigma1) [0 ..< length samples])"
    by (rule length_filter_mono) (simp add: mono)
  have c: "num_changed samples out2 \<le> num_changed samples out1"
    unfolding num_changed_def
  proof (rule length_filter_mono)
    fix i assume i: "i \<in> set [0 ..< length samples]" and d: "out2 ! i \<noteq> samples ! i"
    from i have l: "i < length samples" by simp
    from d nth2 [OF l] have t: "?taken nsigma2 i" and m: "spec_median (?window i) \<noteq> samples ! i"
      by (auto split: if_splits)
    from mono [OF l t] nth1 [OF l] m show "out1 ! i \<noteq> samples ! i"
      by simp
  qed
  from out1 out2 r c
    num_replaced_unfold [OF assms(1,2) pos, of nsigma1]
    num_replaced_unfold [OF assms(1,2) pos, of nsigma2]
  show ?thesis by blast
qed

theorem hampel_filter_monotone_in_nsigma_witness:
  "[0, 10, 1 :: real] \<noteq> [] \<and> odd (3 :: int) \<and> (1 :: int) \<le> 3
   \<and> (3 :: int) \<le> int (length [0, 10, 1 :: real]) \<and> (1 :: real) \<le> 10
   \<and> num_replaced [0, 10, 1] 3 1 = Inr 1 \<and> num_replaced [0, 10, 1] 3 10 = Inr 0
   \<and> (\<exists>out1 out2 r1 r2.
      hampel_filter [0, 10, 1] 3 1 = Inr out1 \<and> hampel_filter [0, 10, 1] 3 10 = Inr out2
    \<and> num_replaced [0, 10, 1] 3 1 = Inr r1 \<and> num_replaced [0, 10, 1] 3 10 = Inr r2
    \<and> r2 \<le> r1
    \<and> num_changed [0, 10, 1] out2 \<le> num_changed [0, 10, 1] out1)"
proof -
  have h1: "[0, 10, 1 :: real] \<noteq> []" by simp
  have h2: "odd (3 :: int)" by simp
  have h3: "(1 :: int) \<le> 3" by simp
  have h4: "(3 :: int) \<le> int (length [0, 10, 1 :: real])" by simp
  have h5: "(1 :: real) \<le> 10" by simp
  have r1: "num_replaced [0, 10, 1] 3 1 = Inr 1" by code_simp
  have r2: "num_replaced [0, 10, 1] 3 10 = Inr 0" by code_simp
  from hampel_filter_monotone_in_nsigma [OF h1 h2 h3 h4 h5] h1 h2 h3 h4 h5 r1 r2
  show ?thesis by (intro conjI)
qed


subsection \<open>Errors\<close>

lemma np_pad_median_error:
  assumes "np_pad_median samples h = Inl e"
  shows "e \<noteq> ValueError ''Window size must be odd!''"
  using assms
  by (auto simp: np_pad_median_def Let_def negative_pad_width_def empty_axis_def
      split: if_splits option.splits prod.splits)

lemma sliding_window_view_error:
  assumes "sliding_window_view x w = Inl e"
  shows "e \<noteq> ValueError ''Window size must be odd!''"
  using assms
  by (auto simp: sliding_window_view_def negative_window_shape_def window_too_large_def
      split: if_splits)

lemma hampel_filter_odd_error:
  assumes "odd w" and "hampel_filter samples w nsigma = Inl e"
  shows "e \<noteq> ValueError ''Window size must be odd!''"
proof -
  from assms(1) have "w mod 2 \<noteq> 0" by presburger
  with assms(2) show ?thesis
    by (auto simp: hampel_filter_def split: sum.splits
        dest: np_pad_median_error sliding_window_view_error)
qed

text \<open>
  Claim C3. For all samples and every \<open>nsigma\<close>, \<^verbatim>\<open>hampel_filter\<close> fails with the error
  of the window size check, \<^verbatim>\<open>ValueError("Window size must be odd!")\<close>, if and only if the
  window size is even; in particular with window size 10. The check comes before the
  padding and the windows: with an even size the result is this error whatever the
  samples are, also for samples on which the padding itself would raise (the empty
  array with size 4).
\<close>

theorem hampel_filter_even_window_size:
  "(hampel_filter samples w nsigma = Inl (ValueError ''Window size must be odd!'') \<longleftrightarrow> even w)
   \<and> hampel_filter samples 10 3 = Inl (ValueError ''Window size must be odd!'')
   \<and> np_pad_median [] (4 div 2) = Inl empty_axis
   \<and> hampel_filter [] 4 nsigma = Inl (ValueError ''Window size must be odd!'')"
proof (intro conjI)
  show "hampel_filter samples w nsigma = Inl (ValueError ''Window size must be odd!'') \<longleftrightarrow> even w"
  proof
    assume "hampel_filter samples w nsigma = Inl (ValueError ''Window size must be odd!'')"
    then show "even w"
      using hampel_filter_odd_error [of w samples nsigma] by blast
  next
    assume "even w"
    then have "w mod 2 = 0" by presburger
    then show "hampel_filter samples w nsigma = Inl (ValueError ''Window size must be odd!'')"
      by (simp add: hampel_filter_def)
  qed
  show "hampel_filter samples 10 3 = Inl (ValueError ''Window size must be odd!'')"
    by (simp add: hampel_filter_def)
  show "np_pad_median [] (4 div 2) = Inl empty_axis"
    by (simp add: np_pad_median_def)
  show "hampel_filter [] 4 nsigma = Inl (ValueError ''Window size must be odd!'')"
    by (simp add: hampel_filter_def)
qed

theorem hampel_filter_even_window_size_witness:
  "even (6 :: int) \<and> hampel_filter [1, 2, 3] 6 3 = Inl (ValueError ''Window size must be odd!'')
   \<and> odd (3 :: int) \<and> hampel_filter [1, 2, 3] 3 3 \<noteq> Inl (ValueError ''Window size must be odd!'')"
  using hampel_filter_even_window_size [of "[1, 2, 3]" 6 3]
    hampel_filter_even_window_size [of "[1, 2, 3]" 3 3]
  by simp

subsection \<open>A concrete signal\<close>

text \<open>
  Claim C7. On the samples \<open>[1, 2, 3, 100, 5, 6, 7]\<close> with window size 5 and
  \<open>nsigma = 3\<close>, \<^verbatim>\<open>hampel_filter\<close> replaces the element 100 at index 3 by the median of
  its window, which is not 100, and returns the six other elements unchanged; index 3 is
  the only one at which the loop assigns.
\<close>

theorem hampel_filter_outlier_example:
  "hampel_filter [1, 2, 3, 100, 5, 6, 7] 5 3 = Inr [1, 2, 3, 5, 5, 6, 7]
   \<and> centered_window [1, 2, 3, 100, 5, 6, 7] 5 3 = [2, 3, 100, 5, 6]
   \<and> np_median [2, 3, 100, 5, 6] = Some 5
   \<and> [1, 2, 3, 5, 5, 6, 7] ! 3 \<noteq> (100 :: real)
   \<and> replaced_indices 3
        (zip [1, 2, 3, 100, 5, 6, 7]
           (map (centered_window [1, 2, 3, 100, 5, 6, 7] 5) [0 ..< 7])) = [3]"
proof (intro conjI)
  show "hampel_filter [1, 2, 3, 100, 5, 6, 7] 5 3 = Inr [1, 2, 3, 5, 5, 6, 7]"
    by code_simp
  show "centered_window [1, 2, 3, 100, 5, 6, 7] 5 3 = [2, 3, 100, 5, 6]"
    by code_simp
  show "np_median [2, 3, 100, 5, 6] = Some 5"
    by code_simp
  show "[1, 2, 3, 5, 5, 6, 7] ! 3 \<noteq> (100 :: real)"
    by simp
  show "replaced_indices 3
        (zip [1, 2, 3, 100, 5, 6, 7]
           (map (centered_window [1, 2, 3, 100, 5, 6, 7] 5) [0 ..< 7])) = [3]"
    by code_simp
qed

subsection \<open>The empty input\<close>

text \<open>
  Claim C10 says that for the empty input and every odd window size the call fails while
  the sliding windows are built, the padded sequence having \<open>window_size - 1\<close> elements.
  With window size 3 the padding raises instead: an empty array cannot be extended by
  the median mode, so that no padded sequence exists and the windows are never built.
\<close>

theorem hampel_filter_empty_counterexample:
  "np_pad_median [] (3 div 2) = Inl empty_axis
   \<and> hampel_filter [] 3 3 = Inl empty_axis
   \<and> hampel_filter [] 3 3 \<noteq> Inl window_too_large"
  by (simp add: hampel_filter_def np_pad_median_def empty_axis_def window_too_large_def)

text \<open>
  Claim C10, amended. For the empty input and every odd window size \<^verbatim>\<open>hampel_filter\<close>
  returns no sequence, it fails with a \<^verbatim>\<open>ValueError\<close>. The error is raised by the padding
  when the window size is not 1 (a negative pad width for a negative size, an empty axis
  that cannot be extended for a size above 1), and it is raised while the sliding
  windows are built exactly when the window size is 1: then the padded sequence is
  empty, of length \<open>window_size - 1 = 0\<close>, shorter than the window.
\<close>

theorem hampel_filter_empty_input:
  assumes "odd w"
  shows "(\<exists>e. hampel_filter [] w nsigma = Inl e)
   \<and> (w < 0 \<longrightarrow> np_pad_median [] (w div 2) = Inl negative_pad_width
        \<and> hampel_filter [] w nsigma = Inl negative_pad_width)
   \<and> (1 < w \<longrightarrow> np_pad_median [] (w div 2) = Inl empty_axis
        \<and> hampel_filter [] w nsigma = Inl empty_axis)
   \<and> (w = 1 \<longrightarrow> np_pad_median [] (w div 2) = Inr []
        \<and> sliding_window_view [] w = Inl window_too_large
        \<and> hampel_filter [] w nsigma = Inl window_too_large)"
proof -
  from assms have m: "w mod 2 \<noteq> 0" by presburger
  from assms have "w \<noteq> 0" by auto
  then consider "w < 0" | "w = 1" | "1 < w"
    by arith
  then show ?thesis
  proof cases
    case 1
    then have "w div 2 < 0" by simp
    with 1 m show ?thesis
      by (simp add: hampel_filter_def np_pad_median_def)
  next
    case 2
    then show ?thesis
      by (simp add: hampel_filter_def np_pad_median_def sliding_window_view_def)
  next
    case 3
    then have "0 < w div 2" by simp
    with 3 m show ?thesis
      by (simp add: hampel_filter_def np_pad_median_def)
  qed
qed

theorem hampel_filter_empty_input_witness:
  "odd (1 :: int) \<and> odd (5 :: int) \<and> odd (- 3 :: int)
   \<and> hampel_filter [] 1 3 = Inl window_too_large
   \<and> hampel_filter [] 5 3 = Inl empty_axis
   \<and> hampel_filter [] (- 3) 3 = Inl negative_pad_width"
proof -
  have h1: "odd (1 :: int)" and h5: "odd (5 :: int)" and h3: "odd (- 3 :: int)"
    by simp_all
  from hampel_filter_empty_input [OF h1, of 3] hampel_filter_empty_input [OF h5, of 3]
    hampel_filter_empty_input [OF h3, of 3] h1 h5 h3
  show ?thesis by simp
qed

section \<open>Properties in the arithmetic of the element type\<close>

subsection \<open>The median\<close>

lemma np_mean_fp_one: "np_mean_fp ar [x] = Some (fdiv_count ar x 1)"
  by (simp add: np_mean_fp_def)

lemma np_mean_fp_two:
  "np_mean_fp ar [x, y] = map_option (\<lambda>t. fdiv_count ar t 2) (fadd ar x y)"
  by (cases "fadd ar x y") (simp_all add: np_mean_fp_def numeral_2_eq_2)

lemma np_median_fp_spec:
  assumes "division_by_one_exact ar" and "a \<noteq> []"
  shows "np_median_fp ar a = spec_median_fp ar a"
proof (cases "None \<in> set a")
  case True
  then show ?thesis by (simp add: np_median_fp_def spec_median_fp_def)
next
  case nan: False
  let ?s = "sort (map the a)"
  have len: "length ?s = length a" by simp
  show ?thesis
  proof (cases "odd (length a)")
    case True
    have "length a div 2 < length ?s"
      using assms(2) by simp
    then have "take 1 (drop (length a div 2) ?s) = [?s ! (length a div 2)]"
      by (rule take_one_drop)
    then have "np_mean_fp ar (take 1 (drop (length a div 2) ?s)) = Some (?s ! (length a div 2))"
      using assms(1) by (simp only: np_mean_fp_one division_by_one_exact_def)
    with True nan show ?thesis
      by (simp add: np_median_fp_def spec_median_fp_def Let_def odd_iff_mod_2_eq_one)
  next
    case False
    then have ev: "even (length a)" by simp
    with assms(2) have pos: "0 < length a div 2" by (cases a) auto
    then have "Suc (length a div 2 - 1) < length ?s" by simp
    then have "take 2 (drop (length a div 2 - 1) ?s) =
        [?s ! (length a div 2 - 1), ?s ! Suc (length a div 2 - 1)]"
      by (rule take_two_drop)
    with pos have "np_mean_fp ar (take 2 (drop (length a div 2 - 1) ?s)) =
        map_option (\<lambda>t. fdiv_count ar t 2)
          (fadd ar (?s ! (length a div 2 - 1)) (?s ! (length a div 2)))"
      by (simp only: np_mean_fp_two) simp
    with ev nan show ?thesis
      by (simp add: np_median_fp_def spec_median_fp_def Let_def)
  qed
qed

lemma median_absolute_deviation_fp_spec:
  assumes "division_by_one_exact ar" and "a \<noteq> []"
  shows "median_absolute_deviation_fp ar a =
     spec_median_fp ar (map (\<lambda>x. abs_diff_fp ar x (spec_median_fp ar a)) a)"
proof -
  have ne: "map (\<lambda>x. abs_diff_fp ar x (spec_median_fp ar a)) a \<noteq> []"
    using assms(2) by simp
  have "median_absolute_deviation_fp ar a =
      np_median_fp ar (map (\<lambda>x. abs_diff_fp ar x (spec_median_fp ar a)) a)"
    by (simp only: median_absolute_deviation_fp_def np_median_fp_spec [OF assms])
  also have "\<dots> = spec_median_fp ar (map (\<lambda>x. abs_diff_fp ar x (spec_median_fp ar a)) a)"
    using assms(1) ne by (rule np_median_fp_spec)
  finally show ?thesis .
qed


lemma small_integer_facts:
  assumes "exact_on_small_integers ar"
  shows "fconst ar 0 < fconst ar 1" and "fconst ar 1 < fconst ar 2" and "fconst ar 2 < fconst ar 3"
    and "fconst ar 3 < fconst ar 4" and "fconst ar 4 < fconst ar 5"
    and "fsub ar (fconst ar 1) (fconst ar 3) = Some (fconst ar (- 2))"
    and "fsub ar (fconst ar 2) (fconst ar 3) = Some (fconst ar (- 1))"
    and "fsub ar (fconst ar 3) (fconst ar 3) = Some (fconst ar 0)"
    and "fsub ar (fconst ar 4) (fconst ar 3) = Some (fconst ar 1)"
    and "fsub ar (fconst ar 5) (fconst ar 3) = Some (fconst ar 2)"
    and "fabs ar (fconst ar (- 2)) = fconst ar 2" and "fabs ar (fconst ar (- 1)) = fconst ar 1"
    and "fabs ar (fconst ar 0) = fconst ar 0" and "fabs ar (fconst ar 1) = fconst ar 1"
    and "fabs ar (fconst ar 2) = fconst ar 2"
    and "fmul ar x (fconst ar 1) = Some x"
proof -
  from assms have ord: "\<And>i j :: int. \<bar>i\<bar> \<le> 2 ^ 52 \<Longrightarrow> \<bar>j\<bar> \<le> 2 ^ 52 \<Longrightarrow> i < j \<Longrightarrow>
        fconst ar (of_int i) < fconst ar (of_int j)"
    and sub: "\<And>i j :: int. \<bar>i\<bar> \<le> 2 ^ 52 \<Longrightarrow> \<bar>j\<bar> \<le> 2 ^ 52 \<Longrightarrow>
        fsub ar (fconst ar (of_int i)) (fconst ar (of_int j)) = Some (fconst ar (of_int (i - j)))"
    and ab: "\<And>i :: int. \<bar>i\<bar> \<le> 2 ^ 53 \<Longrightarrow> fabs ar (fconst ar (of_int i)) = fconst ar (of_int \<bar>i\<bar>)"
    and mul: "\<And>x. fmul ar x (fconst ar 1) = Some x"
    unfolding exact_on_small_integers_def by blast+
  show "fconst ar 0 < fconst ar 1" using ord [of 0 1] by simp
  show "fconst ar 1 < fconst ar 2" using ord [of 1 2] by simp
  show "fconst ar 2 < fconst ar 3" using ord [of 2 3] by simp
  show "fconst ar 3 < fconst ar 4" using ord [of 3 4] by simp
  show "fconst ar 4 < fconst ar 5" using ord [of 4 5] by simp
  show "fsub ar (fconst ar 1) (fconst ar 3) = Some (fconst ar (- 2))" using sub [of 1 3] by simp
  show "fsub ar (fconst ar 2) (fconst ar 3) = Some (fconst ar (- 1))" using sub [of 2 3] by simp
  show "fsub ar (fconst ar 3) (fconst ar 3) = Some (fconst ar 0)" using sub [of 3 3] by simp
  show "fsub ar (fconst ar 4) (fconst ar 3) = Some (fconst ar 1)" using sub [of 4 3] by simp
  show "fsub ar (fconst ar 5) (fconst ar 3) = Some (fconst ar 2)" using sub [of 5 3] by simp
  show "fabs ar (fconst ar (- 2)) = fconst ar 2" using ab [of "- 2"] by simp
  show "fabs ar (fconst ar (- 1)) = fconst ar 1" using ab [of "- 1"] by simp
  show "fabs ar (fconst ar 0) = fconst ar 0" using ab [of 0] by simp
  show "fabs ar (fconst ar 1) = fconst ar 1" using ab [of 1] by simp
  show "fabs ar (fconst ar 2) = fconst ar 2" using ab [of 2] by simp
  show "fmul ar x (fconst ar 1) = Some x" by (rule mul)
qed

lemma spec_median_fp_one_to_five:
  assumes "exact_on_small_integers ar"
  shows "spec_median_fp ar (map (\<lambda>r. Some (fconst ar r)) [1, 2, 3, 4, 5]) = Some (fconst ar 3)"
proof -
  note f = small_integer_facts [OF assms]
  have "sorted [fconst ar 1, fconst ar 2, fconst ar 3, fconst ar 4, fconst ar 5]"
    using f(2-5) by auto
  then have "sort [fconst ar 1, fconst ar 2, fconst ar 3, fconst ar 4, fconst ar 5] =
      [fconst ar 1, fconst ar 2, fconst ar 3, fconst ar 4, fconst ar 5]"
    by (rule sort_key_id_if_sorted [where f = "\<lambda>x. x", simplified])
  then show ?thesis
    by (simp add: spec_median_fp_def)
qed

lemma deviations_one_to_five:
  assumes "exact_on_small_integers ar"
  shows "map (\<lambda>x. abs_diff_fp ar x (Some (fconst ar 3))) (map (\<lambda>r. Some (fconst ar r)) [1, 2, 3, 4, 5])
     = map (\<lambda>r. Some (fconst ar r)) [2, 1, 0, 1, 2]"
  using small_integer_facts(6-15) [OF assms]
  by (simp add: abs_diff_fp_def nan_lift_def)

lemma spec_median_fp_deviations:
  assumes "exact_on_small_integers ar"
  shows "spec_median_fp ar (map (\<lambda>r. Some (fconst ar r)) [2, 1, 0, 1, 2]) = Some (fconst ar 1)"
proof -
  note f = small_integer_facts [OF assms]
  have le: "fconst ar 0 \<le> fconst ar 1" "fconst ar 1 \<le> fconst ar 2" "fconst ar 0 \<le> fconst ar 2"
    and nle: "\<not> fconst ar 1 \<le> fconst ar 0" "\<not> fconst ar 2 \<le> fconst ar 1"
      "\<not> fconst ar 2 \<le> fconst ar 0"
    using f(1,2) by auto
  have "sort [fconst ar 2, fconst ar 1, fconst ar 0, fconst ar 1, fconst ar 2] =
      [fconst ar 0, fconst ar 1, fconst ar 1, fconst ar 2, fconst ar 2]"
    using le nle by simp
  then show ?thesis
    by (simp add: spec_median_fp_def)
qed

subsection \<open>Padding, windows and the loop\<close>

lemma np_pad_median_fp_nonempty:
  assumes "samples \<noteq> []" and "0 \<le> h"
  shows "np_pad_median_fp ar samples h =
     Inr (replicate (nat h) (np_median_fp ar (take (nat h) samples)) @ samples @
          replicate (nat h) (np_median_fp ar (drop (length samples - nat h) samples)))"
proof -
  let ?len = "min (nat h) (length samples)"
  have l: "take ?len samples = take (nat h) samples"
    by (simp add: min_def)
  have r: "drop (length samples - ?len) samples = drop (length samples - nat h) samples"
    by (simp add: min_def)
  have "\<not> h < 0" using assms(2) by simp
  with assms(1) show ?thesis
    by (simp only: np_pad_median_fp_def Let_def l r if_False)
qed

lemma np_pad_median_fp_spec:
  assumes "division_by_one_exact ar" and "samples \<noteq> []" and "0 \<le> h"
  shows "np_pad_median_fp ar samples h = Inr (padded_sequence_fp ar samples (nat h))"
proof (cases "h = 0")
  case True
  then show ?thesis
    using np_pad_median_fp_nonempty [OF assms(2,3), of ar] by (simp add: padded_sequence_fp_def)
next
  case False
  with assms have pos: "0 < nat h" and n: "0 < length samples" by simp_all
  have "take (nat h) samples \<noteq> []"
    using pos n by (cases samples) (auto simp: take_Cons')
  with assms(1)
  have ml: "np_median_fp ar (take (nat h) samples) = spec_median_fp ar (take (nat h) samples)"
    by (rule np_median_fp_spec)
  have "length samples - (length samples - nat h) \<noteq> 0"
    using pos n by arith
  then have "length (drop (length samples - nat h) samples) \<noteq> 0"
    by simp
  then have "drop (length samples - nat h) samples \<noteq> []"
    by (simp del: length_drop)
  with assms(1)
  have mr: "np_median_fp ar (drop (length samples - nat h) samples) =
      spec_median_fp ar (drop (length samples - nat h) samples)"
    by (rule np_median_fp_spec)
  show ?thesis
    using np_pad_median_fp_nonempty [OF assms(2,3), of ar]
    by (simp only: ml mr padded_sequence_fp_def)
qed

lemma length_np_pad_median_fp:
  assumes "np_pad_median_fp ar samples h = Inr padded"
  shows "length padded = length samples + 2 * nat h"
  using assms by (auto simp: np_pad_median_fp_def Let_def split: if_splits)

lemma sliding_window_view_fp_padded:
  assumes "odd w" and "0 < w" and "samples \<noteq> []"
    and "length padded = length samples + 2 * nat (w div 2)"
  shows "sliding_window_view_fp padded w =
     Inr (map (\<lambda>j. take (nat w) (drop j padded)) [0 ..< length samples])"
proof -
  have n: "0 < length samples"
    using assms(3) by simp
  have len: "length padded = length samples + nat w - 1"
    using odd_window_half(1) [OF assms(1,2)] assms(4) by simp
  have nw: "\<not> w < 0"
    using assms(2) by simp
  have a: "\<not> int (length padded) < w"
    unfolding len using assms(2) n by arith
  have b: "length padded - nat w + 1 = length samples"
    unfolding len using assms(2) n by arith
  have "sliding_window_view_fp padded w =
      Inr (map (\<lambda>j. take (nat w) (drop j padded)) [0 ..< length padded - nat w + 1])"
    by (simp only: sliding_window_view_fp_def nw a if_False)
  then show ?thesis
    by (simp only: b)
qed

lemma length_window_fp:
  assumes "odd w" and "0 < w" and "i < length samples"
    and "length padded = length samples + 2 * nat (w div 2)"
  shows "length (take (nat w) (drop i padded)) = nat w"
proof -
  have "nat w \<le> length samples + 2 * nat (w div 2) - i"
    using assms(3) odd_window_half(1) [OF assms(1,2)] by arith
  then show ?thesis
    by (simp add: assms(4))
qed




subsection \<open>The two arithmetics\<close>

lemma rounding_arith_division_by_one: "division_by_one_exact rounding_arith"
  by (simp add: division_by_one_exact_def rounding_arith_def)

lemma rounding_arith_small_integers: "exact_on_small_integers rounding_arith"
proof -
  have "round (real_of_int i - real_of_int j) = i - j" for i j
    by (simp flip: of_int_diff)
  moreover have "round \<bar>real_of_int i\<bar> = \<bar>i\<bar>" for i
    by (simp flip: of_int_abs)
  ultimately show ?thesis
    by (simp add: exact_on_small_integers_def rounding_arith_def)
qed

lemma exact_arith_division_by_one: "division_by_one_exact exact_arith"
  by (simp add: division_by_one_exact_def exact_arith_def)

lemma exact_arith_small_integers: "exact_on_small_integers exact_arith"
  by (simp add: exact_on_small_integers_def exact_arith_def)

subsection \<open>The two statistics in the arithmetic of the element type\<close>

text \<open>
  Claim C5. For every non-empty sequence \<open>a\<close>, \<^verbatim>\<open>median_absolute_deviation(a)\<close> returns the
  median of the absolute deviations of the elements from the median of \<open>a\<close>, where the
  median of a sequence of odd length is its middle order statistic and that of a sequence
  of even length is the mean of its two middle order statistics, all in the arithmetic of
  the element type (where a division by the count 1 is exact). In particular the median
  absolute deviation of \<open>[1, 2, 3, 4, 5]\<close> is \<open>1\<close>, in every arithmetic that is exact on
  small integers.
\<close>

theorem median_absolute_deviation_fp_correct:
  "(division_by_one_exact ar \<and> a \<noteq> [] \<longrightarrow>
      median_absolute_deviation_fp ar a =
        spec_median_fp ar (map (\<lambda>x. abs_diff_fp ar x (spec_median_fp ar a)) a))
   \<and> (division_by_one_exact ar \<and> exact_on_small_integers ar \<longrightarrow>
      median_absolute_deviation_fp ar (map (\<lambda>r. Some (fconst ar r)) [1, 2, 3, 4, 5])
        = Some (fconst ar 1))"
proof (intro conjI impI)
  assume "division_by_one_exact ar \<and> a \<noteq> []"
  then show "median_absolute_deviation_fp ar a =
        spec_median_fp ar (map (\<lambda>x. abs_diff_fp ar x (spec_median_fp ar a)) a)"
    by (simp add: median_absolute_deviation_fp_spec)
next
  assume h: "division_by_one_exact ar \<and> exact_on_small_integers ar"
  let ?a = "map (\<lambda>r. Some (fconst ar r)) [1, 2, 3, 4, 5]"
  have "?a \<noteq> []" by simp
  with h have "median_absolute_deviation_fp ar ?a =
        spec_median_fp ar (map (\<lambda>x. abs_diff_fp ar x (spec_median_fp ar ?a)) ?a)"
    by (intro median_absolute_deviation_fp_spec) simp_all
  also have "\<dots> = spec_median_fp ar (map (\<lambda>x. abs_diff_fp ar x (Some (fconst ar 3))) ?a)"
    using h by (simp only: spec_median_fp_one_to_five)
  also have "\<dots> = spec_median_fp ar (map (\<lambda>r. Some (fconst ar r)) [2, 1, 0, 1, 2])"
    using h by (simp only: deviations_one_to_five)
  also have "\<dots> = Some (fconst ar 1)"
    using h by (simp only: spec_median_fp_deviations)
  finally show "median_absolute_deviation_fp ar ?a = Some (fconst ar 1)" .
qed

theorem median_absolute_deviation_fp_correct_witness:
  "division_by_one_exact rounding_arith \<and> exact_on_small_integers rounding_arith
   \<and> [Some 1, Some 2, Some 4, Some (7 :: int)] \<noteq> []
   \<and> spec_median_fp rounding_arith [Some 1, Some 2, Some 4, Some 7] = Some 3
   \<and> median_absolute_deviation_fp rounding_arith [Some 1, Some 2, Some 4, Some 7] = Some 2
   \<and> median_absolute_deviation_fp rounding_arith (map (\<lambda>r. Some (fconst rounding_arith r)) [1, 2, 3, 4, 5])
       = Some (fconst rounding_arith 1)"
proof -
  note d = rounding_arith_division_by_one
  note e = rounding_arith_small_integers
  have ne: "[Some 1, Some 2, Some 4, Some (7 :: int)] \<noteq> []" by simp
  have m: "spec_median_fp rounding_arith [Some 1, Some 2, Some 4, Some 7] = Some 3"
    by code_simp
  have v: "spec_median_fp rounding_arith
      (map (\<lambda>x. abs_diff_fp rounding_arith x (Some 3)) [Some 1, Some 2, Some 4, Some 7]) = Some 2"
    by code_simp
  from median_absolute_deviation_fp_correct [of rounding_arith "[Some 1, Some 2, Some 4, Some 7]"]
    d e ne
  have g: "median_absolute_deviation_fp rounding_arith [Some 1, Some 2, Some 4, Some 7] =
        spec_median_fp rounding_arith (map (\<lambda>x. abs_diff_fp rounding_arith x
          (spec_median_fp rounding_arith [Some 1, Some 2, Some 4, Some 7]))
          [Some 1, Some 2, Some 4, Some 7])"
    and c: "median_absolute_deviation_fp rounding_arith
        (map (\<lambda>r. Some (fconst rounding_arith r)) [1, 2, 3, 4, 5]) = Some (fconst rounding_arith 1)"
    by blast+
  from g have "median_absolute_deviation_fp rounding_arith [Some 1, Some 2, Some 4, Some 7] = Some 2"
    by (simp only: m v)
  with d e ne m c show ?thesis by (intro conjI)
qed

text \<open>
  Claim C6. For every non-empty sequence \<open>a\<close> and every scale factor,
  \<^verbatim>\<open>estimated_standard_deviation(a, scale_factor)\<close> returns the product, in the arithmetic
  of the element type, of the scale factor and the median absolute deviation of \<open>a\<close>; the
  scale factor defaults to the number that \<open>1.4826\<close> denotes, and with the default the
  estimate for \<open>[1, 2, 3, 4, 5]\<close> is that number.
\<close>

theorem estimated_standard_deviation_fp_correct:
  "estimated_standard_deviation_fp ar a scale_factor =
      nan_lift (fmul ar) scale_factor (median_absolute_deviation_fp ar a)
   \<and> (division_by_one_exact ar \<and> a \<noteq> [] \<longrightarrow>
      estimated_standard_deviation_fp ar a scale_factor =
        nan_lift (fmul ar) scale_factor
          (spec_median_fp ar (map (\<lambda>x. abs_diff_fp ar x (spec_median_fp ar a)) a)))
   \<and> default_scale_factor_fp ar = Some (fconst ar 1.4826)
   \<and> (division_by_one_exact ar \<and> exact_on_small_integers ar \<longrightarrow>
      estimated_standard_deviation_fp ar (map (\<lambda>r. Some (fconst ar r)) [1, 2, 3, 4, 5])
        (default_scale_factor_fp ar) = Some (fconst ar 1.4826))"
proof (intro conjI impI)
  show "estimated_standard_deviation_fp ar a scale_factor =
      nan_lift (fmul ar) scale_factor (median_absolute_deviation_fp ar a)"
    by (simp add: estimated_standard_deviation_fp_def)
  show "default_scale_factor_fp ar = Some (fconst ar 1.4826)"
    by (simp add: default_scale_factor_fp_def)
next
  assume "division_by_one_exact ar \<and> a \<noteq> []"
  then show "estimated_standard_deviation_fp ar a scale_factor =
        nan_lift (fmul ar) scale_factor
          (spec_median_fp ar (map (\<lambda>x. abs_diff_fp ar x (spec_median_fp ar a)) a))"
    by (simp add: estimated_standard_deviation_fp_def median_absolute_deviation_fp_spec)
next
  assume h: "division_by_one_exact ar \<and> exact_on_small_integers ar"
  let ?a = "map (\<lambda>r. Some (fconst ar r)) [1, 2, 3, 4, 5]"
  have "?a \<noteq> []" by simp
  with h have "median_absolute_deviation_fp ar ?a =
        spec_median_fp ar (map (\<lambda>x. abs_diff_fp ar x (spec_median_fp ar ?a)) ?a)"
    by (intro median_absolute_deviation_fp_spec) simp_all
  also have "\<dots> = spec_median_fp ar (map (\<lambda>x. abs_diff_fp ar x (Some (fconst ar 3))) ?a)"
    using h by (simp only: spec_median_fp_one_to_five)
  also have "\<dots> = spec_median_fp ar (map (\<lambda>r. Some (fconst ar r)) [2, 1, 0, 1, 2])"
    using h by (simp only: deviations_one_to_five)
  also have "\<dots> = Some (fconst ar 1)"
    using h by (simp only: spec_median_fp_deviations)
  finally have "median_absolute_deviation_fp ar ?a = Some (fconst ar 1)" .
  moreover have "fmul ar (fconst ar 1.4826) (fconst ar 1) = Some (fconst ar 1.4826)"
    using h by (intro small_integer_facts(16)) simp
  ultimately show "estimated_standard_deviation_fp ar ?a (default_scale_factor_fp ar)
      = Some (fconst ar 1.4826)"
    by (simp add: estimated_standard_deviation_fp_def default_scale_factor_fp_def nan_lift_def)
qed

theorem estimated_standard_deviation_fp_correct_witness:
  "division_by_one_exact exact_arith \<and> exact_on_small_integers exact_arith
   \<and> [Some 0, Some 10, Some (20 :: real)] \<noteq> []
   \<and> median_absolute_deviation_fp exact_arith [Some 0, Some 10, Some 20] = Some 10
   \<and> estimated_standard_deviation_fp exact_arith [Some 0, Some 10, Some 20]
        (default_scale_factor_fp exact_arith) = Some 14.826
   \<and> estimated_standard_deviation_fp exact_arith (map (\<lambda>r. Some (fconst exact_arith r)) [1, 2, 3, 4, 5])
        (default_scale_factor_fp exact_arith) = Some (fconst exact_arith 1.4826)"
proof -
  note d = exact_arith_division_by_one
  note e = exact_arith_small_integers
  have ne: "[Some 0, Some 10, Some (20 :: real)] \<noteq> []" by simp
  have m: "median_absolute_deviation_fp exact_arith [Some 0, Some 10, Some 20] = Some 10"
    by code_simp
  have p: "nan_lift (fmul exact_arith) (default_scale_factor_fp exact_arith) (Some 10) = Some 14.826"
    by code_simp
  from estimated_standard_deviation_fp_correct
         [of exact_arith "[Some 0, Some 10, Some 20]" "default_scale_factor_fp exact_arith"] d e
  have g: "estimated_standard_deviation_fp exact_arith [Some 0, Some 10, Some 20]
        (default_scale_factor_fp exact_arith) =
      nan_lift (fmul exact_arith) (default_scale_factor_fp exact_arith)
        (median_absolute_deviation_fp exact_arith [Some 0, Some 10, Some 20])"
    and c: "estimated_standard_deviation_fp exact_arith
        (map (\<lambda>r. Some (fconst exact_arith r)) [1, 2, 3, 4, 5])
        (default_scale_factor_fp exact_arith) = Some (fconst exact_arith 1.4826)"
    by blast+
  from g have "estimated_standard_deviation_fp exact_arith [Some 0, Some 10, Some 20]
        (default_scale_factor_fp exact_arith) = Some 14.826"
    by (simp only: m p)
  with d e ne m c show ?thesis by (intro conjI)
qed


subsection \<open>The decision rule and the windows in the arithmetic of the element type\<close>



text \<open>
  Claim C2. For at least one sample and an odd window size (a size: positive), with
  \<open>half = window_size // 2\<close>, the padded sequence that \<^verbatim>\<open>hampel_filter\<close> builds is \<open>half\<close>
  copies of the median of the first \<open>half\<close> samples, then the samples, then \<open>half\<close>
  copies of the median of the last \<open>half\<close> samples, with nothing added when \<open>half = 0\<close>;
  the window that the loop examines for the index \<open>i\<close> is the slice of that padded
  sequence at the padded indices \<open>i .. i + window_size - 1\<close>. The median is
  \<^verbatim>\<open>np.median\<close>, and it is the median of the specification in the arithmetic of the
  element type where a division by the count 1 is exact.
\<close>

theorem hampel_filter_fp_padding_and_windows:
  assumes "samples \<noteq> []" and "odd w" and "0 < w"
  shows "np_pad_median_fp ar samples (w div 2) =
           Inr (replicate (nat (w div 2)) (np_median_fp ar (take (nat (w div 2)) samples))
                @ samples
                @ replicate (nat (w div 2))
                    (np_median_fp ar (drop (length samples - nat (w div 2)) samples)))
     \<and> (division_by_one_exact ar \<longrightarrow>
          np_pad_median_fp ar samples (w div 2) =
           Inr (replicate (nat (w div 2)) (spec_median_fp ar (take (nat (w div 2)) samples))
                @ samples
                @ replicate (nat (w div 2))
                    (spec_median_fp ar (drop (length samples - nat (w div 2)) samples))))
     \<and> (w div 2 = 0 \<longrightarrow> np_pad_median_fp ar samples (w div 2) = Inr samples)
     \<and> (\<exists>padded windows.
           np_pad_median_fp ar samples (w div 2) = Inr padded
         \<and> sliding_window_view_fp padded w = Inr windows
         \<and> length windows = length samples
         \<and> (\<forall>i < length samples.
               windows ! i = take (nat w) (drop i padded) \<and> length (windows ! i) = nat w)
         \<and> hampel_filter_fp ar samples w nsigma =
               Inr (hampel_loop_fp ar nsigma 0 (zip samples windows) samples))"
proof (intro conjI)
  have h: "0 \<le> w div 2"
    using assms(3) by simp
  show pad: "np_pad_median_fp ar samples (w div 2) =
           Inr (replicate (nat (w div 2)) (np_median_fp ar (take (nat (w div 2)) samples))
                @ samples
                @ replicate (nat (w div 2))
                    (np_median_fp ar (drop (length samples - nat (w div 2)) samples)))"
    using assms(1) h by (rule np_pad_median_fp_nonempty)
  show "division_by_one_exact ar \<longrightarrow>
          np_pad_median_fp ar samples (w div 2) =
           Inr (replicate (nat (w div 2)) (spec_median_fp ar (take (nat (w div 2)) samples))
                @ samples
                @ replicate (nat (w div 2))
                    (spec_median_fp ar (drop (length samples - nat (w div 2)) samples)))"
  proof
    assume "division_by_one_exact ar"
    then have "np_pad_median_fp ar samples (w div 2) =
        Inr (padded_sequence_fp ar samples (nat (w div 2)))"
      using assms(1) h by (rule np_pad_median_fp_spec)
    then show "np_pad_median_fp ar samples (w div 2) =
           Inr (replicate (nat (w div 2)) (spec_median_fp ar (take (nat (w div 2)) samples))
                @ samples
                @ replicate (nat (w div 2))
                    (spec_median_fp ar (drop (length samples - nat (w div 2)) samples)))"
      by (simp only: padded_sequence_fp_def)
  qed
  show "w div 2 = 0 \<longrightarrow> np_pad_median_fp ar samples (w div 2) = Inr samples"
  proof
    assume z: "w div 2 = 0"
    have "replicate (nat (w div 2)) (np_median_fp ar (take (nat (w div 2)) samples))
        @ samples
        @ replicate (nat (w div 2))
            (np_median_fp ar (drop (length samples - nat (w div 2)) samples)) = samples"
      by (simp add: z)
    with pad show "np_pad_median_fp ar samples (w div 2) = Inr samples"
      by simp
  qed
  obtain padded where p: "np_pad_median_fp ar samples (w div 2) = Inr padded"
    using pad by blast
  let ?windows = "map (\<lambda>j. take (nat w) (drop j padded)) [0 ..< length samples]"
  have plen: "length padded = length samples + 2 * nat (w div 2)"
    using p by (rule length_np_pad_median_fp)
  have win: "sliding_window_view_fp padded w = Inr ?windows"
    using assms(2,3,1) plen by (rule sliding_window_view_fp_padded)
  have len: "length ?windows = length samples"
    by simp
  have nth: "\<forall>i < length samples.
      ?windows ! i = take (nat w) (drop i padded) \<and> length (?windows ! i) = nat w"
  proof (intro allI impI)
    fix i assume i: "i < length samples"
    then have "?windows ! i = take (nat w) (drop i padded)"
      by simp
    then show "?windows ! i = take (nat w) (drop i padded) \<and> length (?windows ! i) = nat w"
      using length_window_fp [OF assms(2,3) i plen] by simp
  qed
  have "w mod 2 \<noteq> 0" using assms(2) by presburger
  then have "hampel_filter_fp ar samples w nsigma =
      Inr (hampel_loop_fp ar nsigma 0 (zip samples ?windows) samples)"
    by (simp add: hampel_filter_fp_def p win)
  with p win len nth
  show "\<exists>padded windows.
           np_pad_median_fp ar samples (w div 2) = Inr padded
         \<and> sliding_window_view_fp padded w = Inr windows
         \<and> length windows = length samples
         \<and> (\<forall>i < length samples.
               windows ! i = take (nat w) (drop i padded) \<and> length (windows ! i) = nat w)
         \<and> hampel_filter_fp ar samples w nsigma =
               Inr (hampel_loop_fp ar nsigma 0 (zip samples windows) samples)"
    by blast
qed

theorem hampel_filter_fp_padding_and_windows_witness:
  "division_by_one_exact rounding_arith
   \<and> [Some 1, Some 2, Some 4, Some 7, Some (9 :: int)] \<noteq> [] \<and> odd (5 :: int) \<and> (0 :: int) < 5
   \<and> np_pad_median_fp rounding_arith [Some 1, Some 2, Some 4, Some 7, Some 9] (5 div 2)
        = Inr [Some 2, Some 2, Some 1, Some 2, Some 4, Some 7, Some 9, Some 8, Some 8]"
proof -
  note d = rounding_arith_division_by_one
  have h1: "[Some 1, Some 2, Some 4, Some 7, Some (9 :: int)] \<noteq> []" by simp
  have h2: "odd (5 :: int)" by simp
  have h3: "(0 :: int) < 5" by simp
  have e: "replicate (nat (5 div 2))
             (spec_median_fp rounding_arith
                (take (nat (5 div 2)) [Some 1, Some 2, Some 4, Some 7, Some 9]))
           @ [Some 1, Some 2, Some 4, Some 7, Some 9]
           @ replicate (nat (5 div 2))
               (spec_median_fp rounding_arith
                  (drop (length [Some 1, Some 2, Some 4, Some 7, Some (9 :: int)] - nat (5 div 2))
                     [Some 1, Some 2, Some 4, Some 7, Some 9]))
         = [Some 2, Some 2, Some 1, Some 2, Some 4, Some 7, Some 9, Some 8, Some 8]"
    by code_simp
  have "np_pad_median_fp rounding_arith [Some 1, Some 2, Some 4, Some 7, Some 9] (5 div 2)
        = Inr [Some 2, Some 2, Some 1, Some 2, Some 4, Some 7, Some 9, Some 8, Some 8]"
    using hampel_filter_fp_padding_and_windows
            [OF h1 h2 h3, of rounding_arith "Some 0", THEN conjunct2, THEN conjunct1, THEN mp, OF d]
    by (simp only: e)
  with d h1 h2 h3 show ?thesis
    by (intro conjI)
qed

subsection \<open>The first embedding is the second at the exact arithmetic\<close>

lemma sum_from_exact: "sum_from exact_arith acc xs = Some (acc + sum_list xs)"
  by (induction xs arbitrary: acc) (simp_all add: exact_arith_def)

lemma np_mean_fp_exact: "np_mean_fp exact_arith a = np_mean a"
  by (cases a) (simp_all add: np_mean_fp_def np_mean_def sum_from_exact, simp add: exact_arith_def)

lemma np_median_fp_exact: "np_median_fp exact_arith (map Some a) = np_median a"
proof -
  have "None \<notin> set (map Some a)" by auto
  moreover have "map the (map Some a) = a" by (simp add: comp_def)
  ultimately show ?thesis
    by (simp only: np_median_fp_def np_median_def np_mean_fp_exact if_False)
qed

lemma abs_diff_fp_exact: "abs_diff_fp exact_arith (Some x) (Some m) = Some \<bar>x - m\<bar>"
  by (simp add: abs_diff_fp_def nan_lift_def exact_arith_def)

lemma median_absolute_deviation_fp_exact:
  "median_absolute_deviation_fp exact_arith (map Some a) = median_absolute_deviation a"
proof (cases "np_median a")
  case None
  then have "a = []"
    by (auto simp: np_median_def np_mean_def Let_def split: if_splits)
  then show ?thesis
    using None by (simp add: median_absolute_deviation_fp_def median_absolute_deviation_def
        np_median_fp_def np_mean_fp_def)
next
  case (Some m)
  have e: "map (\<lambda>x. abs_diff_fp exact_arith x (Some m)) (map Some a) =
      map Some (map (\<lambda>x. \<bar>x - m\<bar>) a)"
    by (simp add: abs_diff_fp_exact comp_def)
  have "median_absolute_deviation_fp exact_arith (map Some a) =
      np_median_fp exact_arith (map (\<lambda>x. abs_diff_fp exact_arith x (Some m)) (map Some a))"
    by (simp only: median_absolute_deviation_fp_def np_median_fp_exact Some)
  also have "\<dots> = np_median (map (\<lambda>x. \<bar>x - m\<bar>) a)"
    by (simp only: e np_median_fp_exact)
  finally show ?thesis
    using Some by (simp add: median_absolute_deviation_def)
qed

lemma exceeds_threshold_fp_exact:
  "exceeds_threshold_fp exact_arith (Some nsigma) (Some sample) (map Some window) =
     exceeds_threshold nsigma sample window"
proof -
  have d: "default_scale_factor_fp exact_arith = Some default_scale_factor"
    by (simp add: default_scale_factor_fp_def default_scale_factor_def exact_arith_def)
  show ?thesis
    unfolding exceeds_threshold_fp_def exceeds_threshold_def estimated_standard_deviation_fp_def
      estimated_standard_deviation_def median_absolute_deviation_fp_exact np_median_fp_exact d
    by (cases "np_median window"; cases "median_absolute_deviation window")
      (simp_all add: nan_lift_def greater_fp_def abs_diff_fp_def exact_arith_def)
qed


lemma np_pad_median_fp_exact:
  "np_pad_median_fp exact_arith (map Some array) h = map_sum id (map Some) (np_pad_median array h)"
proof -
  consider "h < 0" | "h = 0" | "0 < h" "array = []" | "0 < h" "array \<noteq> []" by fastforce
  then show ?thesis
  proof cases
    case 1
    then show ?thesis by (simp add: np_pad_median_fp_def np_pad_median_def)
  next
    case 2
    then show ?thesis
      by (simp add: np_pad_median_fp_def np_pad_median_def np_median_empty)
  next
    case 3
    then show ?thesis by (simp add: np_pad_median_fp_def np_pad_median_def)
  next
    case 4
    then have h: "0 \<le> h" by simp
    have t: "take (nat h) (map Some array) = map Some (take (nat h) array)"
      by (simp add: take_map)
    have d: "drop (length array - nat h) (map Some array) =
        map Some (drop (length array - nat h) array)"
      by (simp add: drop_map)
    have "take (nat h) array \<noteq> []"
      using 4 by (cases array) (auto simp: take_Cons')
    then have l: "np_median (take (nat h) array) = Some (spec_median (take (nat h) array))"
      by (rule np_median_spec)
    have "length array - (length array - nat h) \<noteq> 0"
      using 4 by (cases array) auto
    then have "length (drop (length array - nat h) array) \<noteq> 0"
      by simp
    then have "drop (length array - nat h) array \<noteq> []"
      by (simp del: length_drop)
    then have r: "np_median (drop (length array - nat h) array) =
        Some (spec_median (drop (length array - nat h) array))"
      by (rule np_median_spec)
    have "np_pad_median array h = Inr (padded_sequence array (nat h))"
      using 4(2) h by (rule np_pad_median_nonempty)
    moreover have "np_pad_median_fp exact_arith (map Some array) h =
        Inr (map Some (padded_sequence array (nat h)))"
      using np_pad_median_fp_nonempty [of "map Some array" h exact_arith] 4(2) h
      by (simp add: t d np_median_fp_exact l r padded_sequence_def)
    ultimately show ?thesis by simp
  qed
qed

lemma sliding_window_view_fp_exact:
  "sliding_window_view_fp (map Some x) w = map_sum id (map (map Some)) (sliding_window_view x w)"
  by (simp add: sliding_window_view_fp_def sliding_window_view_def take_map drop_map)

lemma hampel_loop_fp_exact:
  "hampel_loop_fp exact_arith (Some nsigma) i
     (zip (map Some samples) (map (map Some) windows)) (map Some f) =
   map Some (hampel_loop nsigma i (zip samples windows) f)"
proof (induction samples windows arbitrary: i f rule: list_induct2')
  case (4 s ss w ws)
  show ?case
  proof (cases "exceeds_threshold nsigma s w")
    case True
    then obtain m where m: "np_median w = Some m"
      by (auto simp: exceeds_threshold_def split: option.splits)
    have "(map Some f)[i := Some m] = map Some (f[i := m])"
      by (simp add: map_update)
    with True m show ?thesis
      by (simp add: exceeds_threshold_fp_exact np_median_fp_exact "4.IH")
  next
    case False
    then show ?thesis
      by (simp add: exceeds_threshold_fp_exact "4.IH")
  qed
qed simp_all

lemma hampel_filter_fp_exact:
  "hampel_filter_fp exact_arith (map Some samples) w (Some nsigma) =
     map_sum id (map Some) (hampel_filter samples w nsigma)"
proof (cases "np_pad_median samples (w div 2)")
  case (Inl e)
  then show ?thesis
    by (simp add: hampel_filter_fp_def hampel_filter_def np_pad_median_fp_exact)
next
  case (Inr padded)
  show ?thesis
  proof (cases "sliding_window_view padded w")
    case (Inl e)
    with Inr show ?thesis
      by (simp add: hampel_filter_fp_def hampel_filter_def np_pad_median_fp_exact
          sliding_window_view_fp_exact)
  next
    case win: (Inr windows)
    with Inr show ?thesis
      by (simp add: hampel_filter_fp_def hampel_filter_def np_pad_median_fp_exact
          sliding_window_view_fp_exact hampel_loop_fp_exact)
  qed
qed

text \<open>
  The result depends on the arithmetic. On one input the exact arithmetic keeps the
  sample at index 2, whose deviation 12 is below the threshold \<open>9 * 1.4826\<close>, and the
  rounding arithmetic, whose threshold is 9, replaces it.
\<close>

lemma hampel_filter_fp_depends_on_arithmetic:
  "hampel_filter_fp exact_arith [Some 0, Some 10, Some 23, Some 11, Some 12] 3 (Some 9)
     = Inr [Some 0, Some 10, Some 23, Some 11, Some 12]"
  "hampel_filter_fp rounding_arith [Some 0, Some 10, Some 23, Some 11, Some 12] 3 (Some 9)
     = Inr [Some 0, Some 10, Some 11, Some 11, Some 12]"
  by code_simp+

end
